theory Spec2Isabelle
  imports Main
begin

section \<open>The backend of the yield-curve viewer (backend/index.js, scheduler.js)\<close>

text \<open>
  A shallow embedding of the server-side pipeline: the month enumerator
  (\<open>getAllMonths\<close>), the aggregator (\<open>fetchAndParseCSV\<close>), the two helpers
  \<open>extractDates\<close> and \<open>extractMaturities\<close>, the module variables \<open>cachedData\<close> and
  \<open>cachedDates\<close>, the four route handlers, the startup block and the hourly callback of
  \<open>scheduleCsvRefresh\<close>.

  Strings are lists of 8-bit characters, read as the code units below 256 of a
  JavaScript string. Numbers that the code only uses as integers are \<open>int\<close>.
\<close>

subsection \<open>Number to string, \<open>padStart\<close>\<close>

definition digit_char :: "nat \<Rightarrow> char" where
  "digit_char d = char_of (48 + d)"

text \<open>The decimal digits of a natural number, most significant first.\<close>

function nat_toString :: "nat \<Rightarrow> string" where
  "nat_toString n =
     (if n < 10 then [digit_char n] else nat_toString (n div 10) @ [digit_char (n mod 10)])"
  by pat_completeness auto
termination
  by (relation "measure id") auto

declare nat_toString.simps [simp del]

text \<open>\<open>Number.prototype.toString()\<close> and template interpolation, on an integer.\<close>

definition toString :: "int \<Rightarrow> string" where
  "toString i = (if i < 0 then CHR ''-'' # nat_toString (nat (- i)) else nat_toString (nat i))"

text \<open>\<open>s.padStart(n, c)\<close> for a one-character pad string.\<close>

definition padStart :: "nat \<Rightarrow> char \<Rightarrow> string \<Rightarrow> string" where
  "padStart n c s = replicate (n - length s) c @ s"

subsection \<open>\<open>getAllMonths\<close>\<close>

text \<open>
  What the code reads of \<open>new Date()\<close>: the local year and the month, which
  \<open>getMonth\<close> gives in \<open>0..11\<close>.
\<close>

record js_date =
  getFullYear :: int
  getMonth :: int

text \<open>The template \<open>`${y}${(m + 1).toString().padStart(2, '0')}`\<close>.\<close>

definition ym_token :: "int \<Rightarrow> int \<Rightarrow> string" where
  "ym_token y m = toString y @ padStart 2 CHR ''0'' (toString (m + 1))"

text \<open>The \<open>while\<close> loop, with the loop variables \<open>y\<close>, \<open>m\<close> and \<open>months\<close>.\<close>

function months_loop :: "js_date \<Rightarrow> int \<Rightarrow> int \<Rightarrow> string list \<Rightarrow> string list" where
  "months_loop now y m months =
     (if y < getFullYear now \<or> (y = getFullYear now \<and> m \<le> getMonth now)
      then (let ym = ym_token y m;
                months' = months @ [ym];
                m' = m + 1
            in if m' > 11 then months_loop now (y + 1) 0 months'
               else months_loop now y m' months')
      else months)"
  by pat_completeness auto
termination
  by (relation "measures [\<lambda>(now, y, m, ms). nat (getFullYear now + 1 - y),
                          \<lambda>(now, y, m, ms). nat (12 - m)]") auto

declare months_loop.simps [simp del]

text \<open>\<open>start\<close> is \<open>new Date(2025, 0, 1)\<close>: year 2025, month 0.\<close>

definition getAllMonths :: "js_date \<Rightarrow> string list" where
  "getAllMonths now = months_loop now 2025 0 []"

definition makeCsvUrl :: "string \<Rightarrow> string" where
  "makeCsvUrl yyyymm =
     ''https://home.treasury.gov/resource-center/data-chart-center/interest-rates/daily-treasury-rates.csv/all/''
     @ yyyymm @ ''?field_tdr_date_value_month='' @ yyyymm
     @ ''&type=daily_treasury_yield_curve&page&_format=csv''"

subsection \<open>Promises, the network and the CSV parser\<close>

text \<open>
  A promise is modelled by its final state: it stays pending for ever, or it settles
  as rejected or fulfilled. An \<open>await\<close> on a pending promise never resumes.
\<close>

datatype ('e, 'a) promise = Pending | Rejected 'e | Fulfilled 'a

datatype error = Error string

text \<open>\<open>p.then(f)\<close>, where \<open>f\<close> returns a promise or throws (a rejected promise).\<close>

definition then_p :: "('e, 'a) promise \<Rightarrow> ('a \<Rightarrow> ('e, 'b) promise) \<Rightarrow> ('e, 'b) promise" where
  "then_p p f = (case p of Pending \<Rightarrow> Pending | Rejected e \<Rightarrow> Rejected e | Fulfilled x \<Rightarrow> f x)"

text \<open>\<open>p.catch(h)\<close>, where \<open>h\<close> returns a value.\<close>

definition catch_p :: "('e, 'a) promise \<Rightarrow> ('e \<Rightarrow> 'a) \<Rightarrow> ('e, 'a) promise" where
  "catch_p p h = (case p of Pending \<Rightarrow> Pending | Rejected e \<Rightarrow> Fulfilled (h e) | Fulfilled x \<Rightarrow> Fulfilled x)"

text \<open>
  \<open>Promise.all\<close>: fulfilled with the values in the order of the input array once
  every input is fulfilled, rejected once an input is rejected, pending otherwise.
  (Of several rejected inputs the model reports the one with the least index.)
\<close>

fun Promise_all :: "('e, 'a) promise list \<Rightarrow> ('e, 'a list) promise" where
  "Promise_all [] = Fulfilled []"
| "Promise_all (p # ps) =
     (case p of
        Rejected e \<Rightarrow> Rejected e
      | Pending \<Rightarrow> (case Promise_all ps of Rejected e \<Rightarrow> Rejected e | _ \<Rightarrow> Pending)
      | Fulfilled x \<Rightarrow>
          (case Promise_all ps of
             Rejected e \<Rightarrow> Rejected e
           | Pending \<Rightarrow> Pending
           | Fulfilled xs \<Rightarrow> Fulfilled (x # xs)))"

text \<open>The response of \<open>node-fetch\<close>: \<open>res.ok\<close> and the promise \<open>res.text()\<close>.\<close>

record response =
  res_ok :: bool
  res_text :: "(error, string) promise"

text \<open>
  A record of the parsed CSV (\<open>columns: true\<close>): an object from column name to cell,
  given by its own keys in the order of \<open>Object.keys\<close>, each with its value.
\<close>

type_synonym row = "(string \<times> string) list"

text \<open>
  The two libraries are parameters: \<open>fetch(url)\<close> as the promise it returns, and
  \<open>parse(csvText, {columns: true, skip_empty_lines: true})\<close> as the records it
  returns or the error it throws.
\<close>

type_synonym network = "string \<Rightarrow> (error, response) promise"

type_synonym parser = "string \<Rightarrow> error + row list"

subsection \<open>\<open>fetchAndParseCSV\<close>\<close>

text \<open>One element of \<open>fetches\<close>: the chain \<open>fetch(...).then(...).then(...).catch(...)\<close>.\<close>

definition month_fetch :: "network \<Rightarrow> parser \<Rightarrow> string \<Rightarrow> (error, row list) promise" where
  "month_fetch fetch parse ym =
     catch_p
       (then_p
          (then_p (fetch (makeCsvUrl ym))
             (\<lambda>res. if \<not> res_ok res then Rejected (Error (''Failed to fetch CSV for '' @ ym))
                    else res_text res))
          (\<lambda>csvText. case parse csvText of Inl e \<Rightarrow> Rejected e | Inr records \<Rightarrow> Fulfilled records))
       (\<lambda>e. [])"

definition fetchAndParseCSV ::
  "network \<Rightarrow> parser \<Rightarrow> js_date \<Rightarrow> bool \<Rightarrow> (error, row list) promise" where
  "fetchAndParseCSV fetch parse now force =
     (let months = getAllMonths now;
          fetches = map (month_fetch fetch parse) months
      in then_p (Promise_all fetches)
           (\<lambda>allRecordsArr.
              let allRecords = concat allRecordsArr
              in if length allRecords = 0 then Rejected (Error ''Parsed CSVs are empty.'')
                 else Fulfilled allRecords))"

text \<open>The URLs a call of \<open>fetchAndParseCSV\<close> passes to \<open>fetch\<close>.\<close>

definition fetched_urls :: "js_date \<Rightarrow> string list" where
  "fetched_urls now = map makeCsvUrl (getAllMonths now)"

subsection \<open>\<open>extractDates\<close> and \<open>extractMaturities\<close>\<close>

text \<open>\<open>r[key]\<close>: the cell, or \<open>None\<close> for \<open>undefined\<close>.\<close>

definition get_prop :: "row \<Rightarrow> string \<Rightarrow> string option" where
  "get_prop r key = map_of r key"

text \<open>
  A JavaScript \<open>Set\<close> keeps its elements in insertion order; \<open>add\<close> does nothing for
  an element it has. \<open>new Set(xs)\<close> adds the elements of \<open>xs\<close> from left to right and
  \<open>Array.from\<close> lists the set in its order.
\<close>

definition Set_add :: "'a list \<Rightarrow> 'a \<Rightarrow> 'a list" where
  "Set_add s x = (if x \<in> set s then s else s @ [x])"

definition new_Set :: "'a list \<Rightarrow> 'a list" where
  "new_Set xs = foldl Set_add [] xs"

definition extractDates :: "row list \<Rightarrow> string option list" where
  "extractDates records = new_Set (map (\<lambda>r. get_prop r ''Date'') records)"

text \<open>
  The regular expression \<open>/\d+\s*(Mo|YR)/i\<close>, by its parts. \<open>\s\<close> is the white
  space of JavaScript among the code units below 256; with the flag \<open>i\<close> and no
  flag \<open>u\<close> the letters match their two ASCII cases only.
\<close>

definition is_digit :: "char \<Rightarrow> bool" where
  "is_digit c = (48 \<le> (of_char c :: nat) \<and> (of_char c :: nat) \<le> 57)"

definition is_space :: "char \<Rightarrow> bool" where
  "is_space c = ((of_char c :: nat) \<in> {9, 10, 11, 12, 13, 32, 160})"

text \<open>\<open>(Mo|YR)\<close> matches at the start of the string.\<close>

fun unit_here :: "string \<Rightarrow> bool" where
  "unit_here (a # b # _) =
     ((a \<in> {CHR ''m'', CHR ''M''} \<and> b \<in> {CHR ''o'', CHR ''O''}) \<or>
      (a \<in> {CHR ''y'', CHR ''Y''} \<and> b \<in> {CHR ''r'', CHR ''R''}))"
| "unit_here _ = False"

text \<open>\<open>\s*(Mo|YR)\<close> matches at the start of the string.\<close>

fun spaces_unit_here :: "string \<Rightarrow> bool" where
  "spaces_unit_here [] = False"
| "spaces_unit_here (c # cs) = ((is_space c \<and> spaces_unit_here cs) \<or> unit_here (c # cs))"

text \<open>\<open>\d+\s*(Mo|YR)\<close> matches at the start of the string.\<close>

fun maturity_here :: "string \<Rightarrow> bool" where
  "maturity_here [] = False"
| "maturity_here (c # cs) = (is_digit c \<and> (maturity_here cs \<or> spaces_unit_here cs))"

text \<open>\<open>/\d+\s*(Mo|YR)/i.test(key)\<close>: a match at some position.\<close>

fun maturity_test :: "string \<Rightarrow> bool" where
  "maturity_test [] = False"
| "maturity_test (c # cs) = (maturity_here (c # cs) \<or> maturity_test cs)"

text \<open>\<open>records[0]\<close> of an empty array is \<open>undefined\<close>, and \<open>Object.keys\<close> throws on it.\<close>

definition extractMaturities :: "row list \<Rightarrow> error + string list" where
  "extractMaturities records =
     (case records of
        [] \<Rightarrow> Inl (Error ''Cannot convert undefined or null to object'')
      | sample # _ \<Rightarrow> Inr (filter maturity_test (map fst sample)))"

subsection \<open>The cache and the route handlers\<close>

text \<open>The module variables; \<open>None\<close> is \<open>null\<close>.\<close>

record cache =
  cachedData :: "row list option"
  cachedDates :: "string option list option"

definition initial_cache :: cache where
  "initial_cache = \<lparr>cachedData = None, cachedDates = None\<rparr>"

text \<open>
  What a handler meets when it runs: the clock and the network. The parser is the
  same function at every call and is passed on its own.
\<close>

record world =
  clock :: js_date
  net :: network

text \<open>A rate of the curve: \<open>null\<close>, or the number \<open>parseFloat\<close> gives on the cell.\<close>

datatype rate = null | parseFloat string

datatype body =
    DatesBody "string option list"
  | CurveBody string "(string \<times> rate) list"
  | DataBody "row list" "string option list option"
  | ErrorBody string

record reply =
  status :: nat
  json :: body

text \<open>
  The result of running a handler to its reply: the reply, the module variables
  afterwards, and whether the handler went through
  \<open>cachedData = await fetchAndParseCSV()\<close> (then with the URLs it fetched). A handler
  whose \<open>await\<close> never resumes has no result (\<open>None\<close>). Each handler is run as one
  step; only a handler that awaits could interleave with another. The middleware in
  front of the routes (security headers, request log, rate limit, CORS, the
  \<open>Cache-Control\<close> header) does not touch the module variables and is left out.
\<close>

record handled =
  reply :: reply
  cache_after :: cache
  lazy_fetch :: "string list option"

definition message :: "error \<Rightarrow> string" where
  "message e = (case e of Error m \<Rightarrow> m)"

definition error_reply :: "nat \<Rightarrow> string \<Rightarrow> reply" where
  "error_reply code msg = \<lparr>status = code, json = ErrorBody msg\<rparr>"

text \<open>
  The first statement of the three query handlers,
  \<open>if (!cachedData) cachedData = await fetchAndParseCSV();\<close> followed by the rest of
  the \<open>try\<close> block, \<open>rest\<close>, which gets the module variables and gives a reply and
  the module variables, or throws. The \<open>catch\<close> replies 500 with the message.
  An array is truthy, so \<open>!cachedData\<close> holds for \<open>null\<close> only.
\<close>

definition with_data ::
  "parser \<Rightarrow> world \<Rightarrow> cache \<Rightarrow> (cache \<Rightarrow> row list \<Rightarrow> (error \<times> cache) + (reply \<times> cache)) \<Rightarrow> handled option" where
  "with_data parse w c rest =
     (let finish = (\<lambda>lf r. case r of
                       Inl (e, c') \<Rightarrow> \<lparr>reply = error_reply 500 (message e), cache_after = c', lazy_fetch = lf\<rparr>
                     | Inr (rp, c') \<Rightarrow> \<lparr>reply = rp, cache_after = c', lazy_fetch = lf\<rparr>)
      in case cachedData c of
           Some d \<Rightarrow> Some (finish None (rest c d))
         | None \<Rightarrow>
             (case fetchAndParseCSV (net w) parse (clock w) False of
                Pending \<Rightarrow> None
              | Rejected e \<Rightarrow> Some (finish (Some (fetched_urls (clock w))) (Inl (e, c)))
              | Fulfilled d \<Rightarrow>
                  Some (finish (Some (fetched_urls (clock w))) (rest (c\<lparr>cachedData := Some d\<rparr>) d))))"

text \<open>\<open>if (!cachedDates) cachedDates = extractDates(cachedData);\<close>\<close>

definition ensure_dates :: "cache \<Rightarrow> row list \<Rightarrow> cache" where
  "ensure_dates c d =
     (case cachedDates c of None \<Rightarrow> c\<lparr>cachedDates := Some (extractDates d)\<rparr> | Some _ \<Rightarrow> c)"

text \<open>\<open>GET /api/dates\<close>\<close>

definition dates_handler :: "parser \<Rightarrow> world \<Rightarrow> cache \<Rightarrow> handled option" where
  "dates_handler parse w c =
     with_data parse w c (\<lambda>c d.
       let c' = ensure_dates c d
       in case cachedDates c' of
            None \<Rightarrow> Inl (Error ''No dates found in CSV.'', c')
          | Some ds \<Rightarrow>
              if length ds = 0 then Inl (Error ''No dates found in CSV.'', c')
              else Inr (\<lparr>status = 200, json = DatesBody ds\<rparr>, c'))"

text \<open>
  \<open>GET /api/yield-curve\<close>. \<open>date\<close> is \<open>req.query.date\<close>: \<open>None\<close> when the parameter
  is absent, a string otherwise (a repeated parameter, which Express gives as an array,
  is not modelled). \<open>!date\<close> holds for \<open>undefined\<close> and for the empty string.
  \<open>record[maturity]\<close> of a missing key would be \<open>undefined\<close>, which \<open>parseFloat\<close>
  reads as the string \<open>undefined\<close>.
\<close>

definition curve_of :: "row \<Rightarrow> string list \<Rightarrow> (string \<times> rate) list" where
  "curve_of record maturities =
     map (\<lambda>maturity.
            (maturity,
             case get_prop record maturity of
               None \<Rightarrow> parseFloat ''undefined''
             | Some cell \<Rightarrow> if cell \<noteq> '''' then parseFloat cell else null))
         maturities"

definition yield_curve_handler :: "parser \<Rightarrow> world \<Rightarrow> string option \<Rightarrow> cache \<Rightarrow> handled option" where
  "yield_curve_handler parse w date c =
     (case date of
        None \<Rightarrow> Some \<lparr>reply = error_reply 400 ''Missing date param'', cache_after = c, lazy_fetch = None\<rparr>
      | Some dt \<Rightarrow>
          if dt = '''' then
            Some \<lparr>reply = error_reply 400 ''Missing date param'', cache_after = c, lazy_fetch = None\<rparr>
          else
            with_data parse w c (\<lambda>c d.
              case find (\<lambda>r. get_prop r ''Date'' = Some dt) d of
                None \<Rightarrow> Inr (error_reply 404 ''Date not found'', c)
              | Some record \<Rightarrow>
                  (case extractMaturities [record] of
                     Inl e \<Rightarrow> Inl (e, c)
                   | Inr maturities \<Rightarrow>
                       if length maturities = 0
                       then Inl (Error ''No maturity columns found for this date.'', c)
                       else Inr (\<lparr>status = 200, json = CurveBody dt (curve_of record maturities)\<rparr>, c))))"

text \<open>
  \<open>GET /api/yield-curves\<close>. At its last two statements \<open>cachedData\<close> is the
  array \<open>d\<close> that the first statement found or fetched.
\<close>

definition yield_curves_handler :: "parser \<Rightarrow> world \<Rightarrow> cache \<Rightarrow> handled option" where
  "yield_curves_handler parse w c =
     with_data parse w c (\<lambda>c d.
       let c' = ensure_dates c d
       in if length d = 0 then Inl (Error ''No yield curve data available'', c')
          else Inr (\<lparr>status = 200, json = DataBody d (cachedDates c')\<rparr>, c'))"

text \<open>
  \<open>GET /api/debug-csv\<close>: \<open>CSV_URL\<close> is declared nowhere, so evaluating the argument
  of \<open>fetch\<close> throws a \<open>ReferenceError\<close> before any call, and the \<open>catch\<close> replies 500.
\<close>

definition debug_csv_handler :: "cache \<Rightarrow> handled option" where
  "debug_csv_handler c =
     Some \<lparr>reply = error_reply 500 ''CSV_URL is not defined'', cache_after = c, lazy_fetch = None\<rparr>"

datatype request = GetDates | GetYieldCurve "string option" | GetYieldCurves | GetDebugCsv

definition handle :: "parser \<Rightarrow> world \<Rightarrow> request \<Rightarrow> cache \<Rightarrow> handled option" where
  "handle parse w rq c =
     (case rq of
        GetDates \<Rightarrow> dates_handler parse w c
      | GetYieldCurve date \<Rightarrow> yield_curve_handler parse w date c
      | GetYieldCurves \<Rightarrow> yield_curves_handler parse w c
      | GetDebugCsv \<Rightarrow> debug_csv_handler c)"

subsection \<open>Startup and the scheduler\<close>

text \<open>
  The startup block: on success the module variables are set and the server starts
  listening (\<open>Inr\<close>); on an error the process exits with code 1 (\<open>Inl\<close>); \<open>None\<close>
  when the \<open>await\<close> never resumes.
\<close>

definition bootstrap :: "parser \<Rightarrow> world \<Rightarrow> (error + cache) option" where
  "bootstrap parse w =
     (case fetchAndParseCSV (net w) parse (clock w) True of
        Pending \<Rightarrow> None
      | Rejected e \<Rightarrow> Some (Inl e)
      | Fulfilled d \<Rightarrow> Some (Inr \<lparr>cachedData = Some d, cachedDates = Some (extractDates d)\<rparr>))"

text \<open>
  One run of the callback that \<open>scheduleCsvRefresh\<close> hands to \<open>setInterval\<close>: the
  module variables afterwards and the line it logs last. The callback is in
  scheduler.js, which has no access to the variables of index.js; the value of
  \<open>await fetchAndParseCSV(true)\<close> is not bound.
\<close>

datatype tick_log = Refreshed | RefreshError error

definition scheduled_refresh :: "parser \<Rightarrow> world \<Rightarrow> cache \<Rightarrow> (cache \<times> tick_log) option" where
  "scheduled_refresh parse w c =
     (case fetchAndParseCSV (net w) parse (clock w) True of
        Pending \<Rightarrow> None
      | Rejected e \<Rightarrow> Some (c, RefreshError e)
      | Fulfilled d \<Rightarrow> Some (c, Refreshed))"

text \<open>
  The states of the module variables while the server is listening: the one a
  successful startup leaves, and those that requests and scheduler runs lead to.
\<close>

inductive reachable :: "parser \<Rightarrow> cache \<Rightarrow> bool" for parse :: parser where
  boot: "bootstrap parse w = Some (Inr c) \<Longrightarrow> reachable parse c"
| request: "reachable parse c \<Longrightarrow> handle parse w rq c = Some h \<Longrightarrow> reachable parse (cache_after h)"
| tick: "reachable parse c \<Longrightarrow> scheduled_refresh parse w c = Some (c', l) \<Longrightarrow> reachable parse c'"


subsection \<open>Notions used in the statements\<close>

text \<open>
  Months counted from January 2025: \<open>month_index y m\<close> is the number of months from
  January 2025 to month \<open>m\<close> (from 0) of year \<open>y\<close>, and \<open>nth_token i\<close> is the token
  of the month with index \<open>i\<close>.
\<close>

definition month_index :: "int \<Rightarrow> int \<Rightarrow> int" where
  "month_index y m = (y - 2025) * 12 + m"

definition nth_token :: "int \<Rightarrow> string" where
  "nth_token i = ym_token (2025 + i div 12) (i mod 12)"

text \<open>The number a string of decimal digits denotes.\<close>

definition token_number :: "string \<Rightarrow> nat" where
  "token_number s = foldl (\<lambda>n c. 10 * n + (of_char c - 48)) 0 s"

text \<open>
  A month fails when its chain throws before the \<open>catch\<close>: \<open>fetch\<close> rejects, the
  response is not \<open>ok\<close>, \<open>res.text()\<close> rejects, or \<open>parse\<close> throws.
\<close>

definition month_fails :: "network \<Rightarrow> parser \<Rightarrow> string \<Rightarrow> bool" where
  "month_fails fetch parse ym =
     (case fetch (makeCsvUrl ym) of
        Pending \<Rightarrow> False
      | Rejected e \<Rightarrow> True
      | Fulfilled res \<Rightarrow>
          if \<not> res_ok res then True
          else (case res_text res of
                  Pending \<Rightarrow> False
                | Rejected e \<Rightarrow> True
                | Fulfilled csvText \<Rightarrow> (case parse csvText of Inl e \<Rightarrow> True | Inr records \<Rightarrow> False)))"

text \<open>
  A month hangs when \<open>fetch\<close> never settles, or the response is \<open>ok\<close> and
  \<open>res.text()\<close> never settles.
\<close>

definition month_hangs :: "network \<Rightarrow> string \<Rightarrow> bool" where
  "month_hangs fetch ym =
     (case fetch (makeCsvUrl ym) of
        Pending \<Rightarrow> True
      | Rejected e \<Rightarrow> False
      | Fulfilled res \<Rightarrow> res_ok res \<and> res_text res = Pending)"

text \<open>
  The distinct values of a list in the order of their first occurrences: the values at
  the positions whose value does not occur at an earlier position.
\<close>

definition first_seen :: "'a list \<Rightarrow> 'a list" where
  "first_seen xs = map (\<lambda>i. xs ! i) (filter (\<lambda>i. xs ! i \<notin> set (take i xs)) [0..<length xs])"

text \<open>The rate the handler gives for a cell.\<close>

definition cell_rate :: "string \<Rightarrow> rate" where
  "cell_rate cell = (if cell = '''' then null else parseFloat cell)"

subsection \<open>Example inputs\<close>

text \<open>
  Two clocks; the record of the example in section 8 of the specification and a record
  of the next day; a small stand-in for the parser; four networks: one where only
  January 2025 is published, the same a day later, one that is down, and one where every
  month but January 2025 never answers; rows with other columns, and caches built from
  these.
\<close>

definition jan2025 :: js_date where
  "jan2025 = \<lparr>getFullYear = 2025, getMonth = 0\<rparr>"

definition feb2025 :: js_date where
  "feb2025 = \<lparr>getFullYear = 2025, getMonth = 1\<rparr>"

definition jan_row :: row where
  "jan_row = [(''Date'', ''01/02/2025''), (''1 Mo'', ''4.10''), (''1 YR'', ''4.20'')]"

definition jan_row2 :: row where
  "jan_row2 = [(''Date'', ''01/03/2025''), (''1 Mo'', ''4.15''), (''1 YR'', ''4.25'')]"

definition toy_parse :: parser where
  "toy_parse csvText =
     (if csvText = ''january'' then Inr [jan_row]
      else if csvText = ''january, one day later'' then Inr [jan_row, jan_row2]
      else if csvText = ''empty'' then Inr []
      else Inl (Error ''Invalid Record Length''))"

definition ok_response :: "string \<Rightarrow> response" where
  "ok_response csvText = \<lparr>res_ok = True, res_text = Fulfilled csvText\<rparr>"


definition jan_only_net :: network where
  "jan_only_net url =
     (if url = makeCsvUrl ''202501'' then Fulfilled (ok_response ''january'')
      else Fulfilled \<lparr>res_ok = False, res_text = Fulfilled ''Not Found''\<rparr>)"

definition down_net :: network where
  "down_net url = Rejected (Error ''getaddrinfo ENOTFOUND home.treasury.gov'')"

definition slow_net :: network where
  "slow_net url =
     (if url = makeCsvUrl ''202501'' then Fulfilled (ok_response ''january'') else Pending)"

definition jan_cache :: cache where
  "jan_cache = \<lparr>cachedData = Some [jan_row], cachedDates = Some [Some ''01/02/2025'']\<rparr>"


definition updated_net :: network where
  "updated_net url =
     (if url = makeCsvUrl ''202501'' then Fulfilled (ok_response ''january, one day later'')
      else Fulfilled \<lparr>res_ok = False, res_text = Fulfilled ''Not Found''\<rparr>)"

definition feb_row :: row where
  "feb_row = [(''Date'', ''02/18/2025''), (''1 Mo'', ''4.30''), (''1.5 Month'', ''''), (''1 YR'', ''4.25'')]"

definition bare_row :: row where
  "bare_row = [(''Date'', ''02/19/2025''), (''Note'', ''holiday'')]"

definition blank_row :: row where
  "blank_row = [(''Date'', ''''), (''1 Mo'', ''4.10'')]"

definition mixed_cache :: cache where
  "mixed_cache =
     \<lparr>cachedData = Some [jan_row, feb_row, bare_row, blank_row],
      cachedDates = Some (extractDates [jan_row, feb_row, bare_row, blank_row])\<rparr>"

definition jan_world :: world where
  "jan_world = \<lparr>clock = jan2025, net = jan_only_net\<rparr>"

definition later_world :: world where
  "later_world = \<lparr>clock = jan2025, net = updated_net\<rparr>"

text \<open>
  A network on which every month's file holds the record of 2 January 2025, so that
  two months carry the same date label, and the cache a startup in February 2025 builds
  from it.
\<close>

definition repeat_net :: network where
  "repeat_net url = Fulfilled (ok_response ''january'')"

definition repeat_world :: world where
  "repeat_world = \<lparr>clock = feb2025, net = repeat_net\<rparr>"

definition repeat_cache :: cache where
  "repeat_cache = \<lparr>cachedData = Some [jan_row, jan_row], cachedDates = Some [Some ''01/02/2025'']\<rparr>"

section \<open>Properties\<close>

subsection \<open>The month enumerator\<close>

lemma token_number_snoc: "token_number (s @ [c]) = 10 * token_number s + (of_char c - 48)"
  by (simp add: token_number_def)

lemma token_number_append:
  "token_number (a @ b) = token_number a * 10 ^ length b + token_number b"
proof (induction b rule: rev_induct)
  case Nil
  show ?case by (simp add: token_number_def)
next
  case (snoc c b)
  have "token_number (a @ b @ [c]) = 10 * token_number (a @ b) + (of_char c - 48)"
    using token_number_snoc[of "a @ b" c] by simp
  then show ?case by (simp add: snoc token_number_snoc algebra_simps)
qed

lemma of_char_digit_char: "d < 10 \<Longrightarrow> (of_char (digit_char d) :: nat) = 48 + d"
  by (simp add: digit_char_def)

lemma token_number_nat_toString: "token_number (nat_toString n) = n"
proof (induction n rule: nat_toString.induct)
  case (1 n)
  show ?case
  proof (cases "n < 10")
    case True
    then show ?thesis
      by (subst nat_toString.simps) (simp add: token_number_def of_char_digit_char)
  next
    case False
    then have "token_number (nat_toString n) = 10 * (n div 10) + n mod 10"
      by (subst nat_toString.simps) (simp add: token_number_snoc 1 of_char_digit_char)
    then show ?thesis by simp
  qed
qed

lemma length_nat_toString_small: "n < 10 \<Longrightarrow> length (nat_toString n) = 1"
  by (subst nat_toString.simps) simp

lemma length_nat_toString_step: "10 \<le> n \<Longrightarrow> length (nat_toString n) = Suc (length (nat_toString (n div 10)))"
  by (subst nat_toString.simps) simp

lemma token_number_zeros: "token_number (replicate k CHR ''0'' @ s) = token_number s"
  by (simp add: token_number_append) (induction k; simp add: token_number_def)

lemma month_part:
  assumes "0 \<le> m" "m \<le> 11"
  shows "length (padStart 2 CHR ''0'' (toString (m + 1))) = 2"
    and "token_number (padStart 2 CHR ''0'' (toString (m + 1))) = nat (m + 1)"
proof -
  have ts: "toString (m + 1) = nat_toString (nat (m + 1))"
    using assms by (simp add: toString_def)
  have len: "length (nat_toString (nat (m + 1))) = (if m + 1 < 10 then 1 else 2)"
  proof (cases "m + 1 < 10")
    case True
    with assms show ?thesis by (simp add: length_nat_toString_small)
  next
    case False
    with assms have "10 \<le> nat (m + 1)" "nat (m + 1) div 10 < 10" by auto
    then show ?thesis
      using False by (simp add: length_nat_toString_step length_nat_toString_small)
  qed
  show "length (padStart 2 CHR ''0'' (toString (m + 1))) = 2"
    by (simp add: padStart_def ts len)
  show "token_number (padStart 2 CHR ''0'' (toString (m + 1))) = nat (m + 1)"
    by (simp add: padStart_def ts token_number_zeros token_number_nat_toString)
qed

lemma token_number_ym_token:
  assumes "0 \<le> y" "0 \<le> m" "m \<le> 11"
  shows "token_number (ym_token y m) = nat y * 100 + nat (m + 1)"
proof -
  have "toString y = nat_toString (nat y)"
    using assms by (simp add: toString_def)
  then show ?thesis
    by (simp add: ym_token_def token_number_append month_part[OF assms(2,3)]
        token_number_nat_toString)
qed

lemma length_ym_token:
  assumes "1000 \<le> y" "y \<le> 9999" "0 \<le> m" "m \<le> 11"
  shows "length (ym_token y m) = 6"
proof -
  have ts: "toString y = nat_toString (nat y)"
    using assms by (simp add: toString_def)
  have a: "10 \<le> nat y" and b: "10 \<le> nat y div 10" and c: "10 \<le> nat y div 10 div 10"
    and d: "nat y div 10 div 10 div 10 < 10"
    using assms by auto
  have "length (nat_toString (nat y)) = 4"
    by (simp add: length_nat_toString_step[OF a] length_nat_toString_step[OF b]
        length_nat_toString_step[OF c] length_nat_toString_small[OF d])
  then show ?thesis
    by (simp add: ym_token_def ts month_part[OF assms(3,4)])
qed


lemma divmod12:
  fixes a m :: int
  assumes "0 \<le> m" "m \<le> 11"
  shows "(a * 12 + m) div 12 = a" "(a * 12 + m) mod 12 = m"
  using assms by simp_all

lemma nth_token_month_index:
  assumes "0 \<le> m" "m \<le> 11"
  shows "nth_token (month_index y m) = ym_token y m"
proof -
  show ?thesis
    unfolding nth_token_def month_index_def
    using divmod12[OF assms, of "y - 2025"] by (simp only: add_diff_cancel_left' add.commute[of 2025] diff_add_cancel)
qed

lemma loop_cond_iff:
  "0 \<le> m \<Longrightarrow> m \<le> 11 \<Longrightarrow> 0 \<le> M \<Longrightarrow> M \<le> 11 \<Longrightarrow>
   (y < Y \<or> (y = Y \<and> m \<le> M)) \<longleftrightarrow> month_index y m \<le> month_index Y M"
  unfolding month_index_def by auto

lemma months_loop_closed:
  "0 \<le> m \<Longrightarrow> m \<le> 11 \<Longrightarrow> 0 \<le> getMonth now \<Longrightarrow> getMonth now \<le> 11 \<Longrightarrow>
   months_loop now y m months =
     months @ map nth_token [month_index y m .. month_index (getFullYear now) (getMonth now)]"
proof (induction now y m months rule: months_loop.induct)
  case (1 now y m months)
  let ?Y = "getFullYear now" and ?M = "getMonth now"
  show ?case
  proof (cases "y < ?Y \<or> (y = ?Y \<and> m \<le> ?M)")
    case False
    with 1(3-6) have "\<not> month_index y m \<le> month_index ?Y ?M"
      using loop_cond_iff by blast
    then have "[month_index y m .. month_index ?Y ?M] = []" by simp
    moreover have "months_loop now y m months = months"
      by (subst months_loop.simps, subst if_not_P[OF False]) simp
    ultimately show ?thesis by simp
  next
    case True
    with 1(3-6) have le: "month_index y m \<le> month_index ?Y ?M"
      using loop_cond_iff by blast
    have unroll: "[month_index y m .. month_index ?Y ?M] =
        month_index y m # [month_index y m + 1 .. month_index ?Y ?M]"
      using le by (simp add: upto_rec1)
    show ?thesis
    proof (cases "m + 1 > 11")
      case wrap: True
      with 1(4) have m11: "m = 11" by simp
      have next_idx: "month_index (y + 1) 0 = month_index y m + 1"
        by (simp add: month_index_def m11)
      have "months_loop now y m months = months_loop now (y + 1) 0 (months @ [ym_token y m])"
        using wrap by (subst months_loop.simps, subst if_P[OF True]) (simp add: Let_def)
      also have "\<dots> = (months @ [ym_token y m]) @
          map nth_token [month_index (y + 1) 0 .. month_index ?Y ?M]"
        using 1(1)[OF True refl refl refl wrap] 1(5,6) by simp
      finally show ?thesis
        using unroll next_idx nth_token_month_index[OF 1(3,4)] by simp
    next
      case nowrap: False
      have next_idx: "month_index y (m + 1) = month_index y m + 1"
        by (simp add: month_index_def)
      have "months_loop now y m months = months_loop now y (m + 1) (months @ [ym_token y m])"
        using nowrap by (subst months_loop.simps, subst if_P[OF True]) (simp add: Let_def)
      also have "\<dots> = (months @ [ym_token y m]) @
          map nth_token [month_index y (m + 1) .. month_index ?Y ?M]"
        using 1(2)[OF True refl refl refl nowrap] 1(3,5,6) nowrap by simp
      finally show ?thesis
        using unroll next_idx nth_token_month_index[OF 1(3,4)] by simp
    qed
  qed
qed

lemma getAllMonths_closed:
  "0 \<le> getMonth now \<Longrightarrow> getMonth now \<le> 11 \<Longrightarrow>
   getAllMonths now = map nth_token [0 .. month_index (getFullYear now) (getMonth now)]"
  unfolding getAllMonths_def
  by (subst months_loop_closed) (simp_all add: month_index_def)

lemma token_number_nth_token:
  "0 \<le> i \<Longrightarrow> token_number (nth_token i) = nat (2025 + i div 12) * 100 + nat (i mod 12 + 1)"
  unfolding nth_token_def
  by (rule token_number_ym_token) (simp_all add: pos_imp_zdiv_nonneg_iff)



lemma lin_step:
  fixes a b c d :: int
  assumes "12 * a + b < 12 * c + d" "0 \<le> b" "b < 12" "0 \<le> d" "d < 12"
  shows "100 * a + b < 100 * c + d"
proof (cases "a = c")
  case True
  with assms show ?thesis by simp
next
  case False
  with assms have "a + 1 \<le> c" by linarith
  with assms show ?thesis by linarith
qed

lemma token_number_nth_token_less:
  assumes "0 \<le> i" "i < j"
  shows "token_number (nth_token i) < token_number (nth_token j)"
proof -
  have i: "i = 12 * (i div 12) + i mod 12" and j: "j = 12 * (j div 12) + j mod 12"
    by simp_all
  have bounds: "0 \<le> i mod 12" "i mod 12 < 12" "0 \<le> j mod 12" "j mod 12 < 12"
    by simp_all
  have "12 * (i div 12) + i mod 12 < 12 * (j div 12) + j mod 12"
    using assms(2) i j by simp
  then have "100 * (i div 12) + i mod 12 < 100 * (j div 12) + j mod 12"
    using bounds by (rule lin_step)
  moreover have "0 \<le> i div 12" "0 \<le> j div 12"
    using assms by (simp_all add: pos_imp_zdiv_nonneg_iff)
  moreover have "0 \<le> j" using assms by simp
  ultimately show ?thesis
    using assms bounds
    by (simp add: token_number_nth_token nat_add_distrib nat_mult_distrib
        flip: of_nat_less_iff[where 'a = int])
qed

lemma upto_strict: "sorted_wrt (<) [i..j]"
proof (induction i j rule: upto.induct)
  case (1 i j)
  show ?case
  proof (cases "i \<le> j")
    case True
    then have "[i..j] = i # [i + 1..j]" by (simp add: upto_rec1)
    with 1 True show ?thesis by simp
  next
    case False
    then show ?thesis by simp
  qed
qed

lemma tokens_increasing:
  assumes "0 \<le> i"
  shows "sorted_wrt (<) (map token_number (map nth_token [i..j]))"
proof -
  have "sorted_wrt (\<lambda>a b. token_number (nth_token a) < token_number (nth_token b)) [i..j]"
  proof (rule sorted_wrt_mono_rel[OF _ upto_strict])
    fix a b assume "a \<in> set [i..j]" "b \<in> set [i..j]" "a < b"
    with assms show "token_number (nth_token a) < token_number (nth_token b)"
      by (intro token_number_nth_token_less) auto
  qed
  then show ?thesis by (simp add: sorted_wrt_map)
qed


lemma nth_token_0: "nth_token 0 = ''202501''"
  by code_simp

text \<open>
  Claim C9. When the clock reads a month of 2025 or later, \<open>getAllMonths\<close> returns one
  token for every calendar month from January 2025 to the current month inclusive, in
  calendar order: the token at position \<open>i\<close> is that of the \<open>i\<close>-th month after
  January 2025, the first token is \<open>202501\<close>, the last is the token of the current
  month, every month in between is in the list, the tokens read as numbers are strictly
  increasing (so none occurs twice), and while the year has four digits every token has
  the six characters of YYYYMM. The function is total: it returns for every clock.
\<close>

theorem getAllMonths_enumerates:
  assumes "2025 \<le> getFullYear now" and "0 \<le> getMonth now" and "getMonth now \<le> 11"
  shows "length (getAllMonths now) = nat ((getFullYear now - 2025) * 12 + getMonth now) + 1
       \<and> (\<forall>i < length (getAllMonths now).
            getAllMonths now ! i = ym_token (2025 + int i div 12) (int i mod 12))
       \<and> hd (getAllMonths now) = ''202501''
       \<and> last (getAllMonths now) = ym_token (getFullYear now) (getMonth now)
       \<and> (\<forall>y m. 0 \<le> m \<and> m \<le> 11 \<and> 2025 \<le> y
              \<and> (y < getFullYear now \<or> (y = getFullYear now \<and> m \<le> getMonth now))
              \<longrightarrow> ym_token y m \<in> set (getAllMonths now))
       \<and> sorted_wrt (<) (map token_number (getAllMonths now))
       \<and> distinct (getAllMonths now)
       \<and> (getFullYear now \<le> 9999 \<longrightarrow> (\<forall>t \<in> set (getAllMonths now). length t = 6))"
proof -
  let ?Y = "getFullYear now" and ?M = "getMonth now"
  let ?N = "month_index ?Y ?M"
  have closed: "getAllMonths now = map nth_token [0 .. ?N]"
    using assms(2,3) by (rule getAllMonths_closed)
  have N: "0 \<le> ?N" "?N = (?Y - 2025) * 12 + ?M"
    using assms by (simp_all add: month_index_def)
  have len: "length (getAllMonths now) = nat ((?Y - 2025) * 12 + ?M) + 1"
    using N by (simp add: closed)
  have nth: "getAllMonths now ! i = ym_token (2025 + int i div 12) (int i mod 12)"
    if "i < length (getAllMonths now)" for i
  proof -
    from that N have "0 + int i \<le> ?N" by (simp add: closed)
    then have "[0 .. ?N] ! i = 0 + int i" by (rule nth_upto)
    with that show ?thesis by (simp add: closed nth_token_def)
  qed
  have first: "hd (getAllMonths now) = ''202501''"
    using N(1) by (simp add: closed upto_rec1[of 0] nth_token_0)
  have final: "last (getAllMonths now) = ym_token ?Y ?M"
    using N(1) nth_token_month_index[OF assms(2,3), of ?Y]
    by (simp add: closed upto_rec2[of 0])
  have mem: "ym_token y m \<in> set (getAllMonths now)"
    if "0 \<le> m" "m \<le> 11" "2025 \<le> y" "y < ?Y \<or> (y = ?Y \<and> m \<le> ?M)" for y m
  proof -
    have "month_index y m \<le> ?N"
      using that loop_cond_iff[OF that(1,2) assms(2,3), of y ?Y] by simp
    moreover have "0 \<le> month_index y m"
      using that by (simp add: month_index_def)
    ultimately have "nth_token (month_index y m) \<in> set (getAllMonths now)"
      by (simp add: closed)
    then show ?thesis using nth_token_month_index[OF that(1,2)] by simp
  qed
  have incr: "sorted_wrt (<) (map token_number (getAllMonths now))"
    unfolding closed by (rule tokens_increasing) simp
  have dist: "distinct (getAllMonths now)"
    using strict_sorted_iff[of "map token_number (getAllMonths now)"] incr distinct_map
    by blast
  have six: "length t = 6" if "?Y \<le> 9999" "t \<in> set (getAllMonths now)" for t
  proof -
    from that(2) obtain i where i: "0 \<le> i" "i \<le> ?N" "t = nth_token i"
      by (auto simp: closed)
    have "i div 12 \<le> ?N div 12" using i(2) by (rule zdiv_mono1) simp
    also have "?N div 12 = ?Y - 2025"
      unfolding month_index_def using assms(2,3) by (rule divmod12)
    finally have "2025 + i div 12 \<le> 9999" using that(1) by simp
    moreover have "1000 \<le> 2025 + i div 12"
      using i(1) by (simp add: pos_imp_zdiv_nonneg_iff add_increasing)
    ultimately show ?thesis
      unfolding i(3) nth_token_def by (intro length_ym_token) simp_all
  qed
  show ?thesis
    using len nth first final mem incr dist six by blast
qed

theorem getAllMonths_enumerates_witness:
  "length (getAllMonths \<lparr>getFullYear = 2026, getMonth = 1\<rparr>) = 14
   \<and> hd (getAllMonths \<lparr>getFullYear = 2026, getMonth = 1\<rparr>) = ''202501''
   \<and> last (getAllMonths \<lparr>getFullYear = 2026, getMonth = 1\<rparr>) = ''202602''
   \<and> getAllMonths \<lparr>getFullYear = 2026, getMonth = 1\<rparr> ! 12 = ''202601''
   \<and> distinct (getAllMonths \<lparr>getFullYear = 2026, getMonth = 1\<rparr>)"
proof -
  let ?now = "\<lparr>getFullYear = 2026, getMonth = 1\<rparr>"
  have a: "ym_token 2026 1 = ''202602''" and b: "ym_token (2025 + int 12 div 12) (int 12 mod 12) = ''202601''"
    by code_simp+
  have h: "2025 \<le> getFullYear ?now" "0 \<le> getMonth ?now" "getMonth ?now \<le> 11"
    by simp_all
  note t = getAllMonths_enumerates[OF h]
  from t have len: "length (getAllMonths ?now) = 14" by simp
  from t have "\<forall>i < length (getAllMonths ?now).
            getAllMonths ?now ! i = ym_token (2025 + int i div 12) (int i mod 12)" by blast
  with len have "getAllMonths ?now ! 12 = ym_token (2025 + int 12 div 12) (int 12 mod 12)" by simp
  with t len a b show ?thesis by simp
qed


subsection \<open>The aggregator\<close>

lemma month_fetch_fails: "month_fails fetch parse ym \<Longrightarrow> month_fetch fetch parse ym = Fulfilled []"
  by (auto simp: month_fails_def month_fetch_def then_p_def catch_p_def
      split: promise.splits sum.splits if_splits)

lemma month_fetch_Pending_iff: "month_fetch fetch parse ym = Pending \<longleftrightarrow> month_hangs fetch ym"
  by (auto simp: month_hangs_def month_fetch_def then_p_def catch_p_def
      split: promise.splits sum.splits if_splits)

lemma month_fetch_not_Rejected: "month_fetch fetch parse ym \<noteq> Rejected e"
  by (auto simp: month_fetch_def then_p_def catch_p_def split: promise.splits sum.splits if_splits)

lemma Promise_all_Fulfilled:
  "\<forall>x \<in> set xs. f x = Fulfilled (g x) \<Longrightarrow> Promise_all (map f xs) = Fulfilled (map g xs)"
  by (induction xs) simp_all

lemma Promise_all_not_Rejected:
  "\<forall>p \<in> set ps. \<forall>e. p \<noteq> Rejected e \<Longrightarrow> Promise_all ps \<noteq> Rejected e'"
  by (induction ps) (auto split: promise.splits)

lemma Promise_all_Pending_iff:
  "\<forall>p \<in> set ps. \<forall>e. p \<noteq> Rejected e \<Longrightarrow> Promise_all ps = Pending \<longleftrightarrow> Pending \<in> set ps"
proof (induction ps)
  case Nil
  show ?case by simp
next
  case (Cons p ps)
  then have "\<And>e. Promise_all ps \<noteq> Rejected e" and "\<And>e. p \<noteq> Rejected e"
    using Promise_all_not_Rejected[of ps] by auto
  with Cons show ?case by (auto split: promise.splits)
qed


lemma fetchAndParseCSV_Pending_iff:
  "fetchAndParseCSV fetch parse now force = Pending \<longleftrightarrow>
     (\<exists>ym \<in> set (getAllMonths now). month_hangs fetch ym)"
proof -
  let ?ps = "map (month_fetch fetch parse) (getAllMonths now)"
  have nr: "\<forall>p \<in> set ?ps. \<forall>e. p \<noteq> Rejected e"
    by (auto simp: month_fetch_not_Rejected)
  have "fetchAndParseCSV fetch parse now force = Pending \<longleftrightarrow> Promise_all ?ps = Pending"
    by (auto simp: fetchAndParseCSV_def then_p_def Let_def split: promise.splits)
  also have "\<dots> \<longleftrightarrow> Pending \<in> set ?ps"
    using nr by (rule Promise_all_Pending_iff)
  also have "\<dots> \<longleftrightarrow> (\<exists>ym \<in> set (getAllMonths now). month_hangs fetch ym)"
    using month_fetch_Pending_iff[of fetch parse] by (auto simp: image_iff) metis+
  finally show ?thesis .
qed

lemma fetchAndParseCSV_settled:
  assumes "\<forall>ym \<in> set (getAllMonths now). month_fetch fetch parse ym = Fulfilled (rows ym)"
  shows "fetchAndParseCSV fetch parse now force =
     (if concat (map rows (getAllMonths now)) = [] then Rejected (Error ''Parsed CSVs are empty.'')
      else Fulfilled (concat (map rows (getAllMonths now))))"
  using Promise_all_Fulfilled[OF assms]
  by (simp add: fetchAndParseCSV_def then_p_def Let_def)

text \<open>
  Claim C10. The result of \<open>fetchAndParseCSV\<close> does not depend on its argument
  \<open>force\<close>: with the same clock, network and parser, any two values of the flag give
  the same promise, fulfilled with the same records or rejected with the same error.
\<close>

theorem fetchAndParseCSV_force_irrelevant:
  "fetchAndParseCSV fetch parse now force = fetchAndParseCSV fetch parse now force'"
  by (simp add: fetchAndParseCSV_def)

lemma getAllMonths_feb2025: "getAllMonths feb2025 = [''202501'', ''202502'']"
  by code_simp

lemma getAllMonths_jan2025: "getAllMonths jan2025 = [''202501'']"
  by code_simp


lemma slow_fetches:
  "month_fetch slow_net toy_parse ''202501'' = Fulfilled [jan_row]"
  "month_fetch slow_net toy_parse ''202502'' = Pending"
  "month_hangs slow_net ''202502''"
  by code_simp+

lemma down_fails: "month_fails down_net toy_parse ym"
  by (simp add: month_fails_def down_net_def)



lemma with_data_Rejected:
  assumes "cachedData c = None"
    and "fetchAndParseCSV (net w) parse (clock w) False = Rejected e"
  shows "\<exists>h. with_data parse w c rest = Some h \<and> cache_after h = c"
  using assms by (simp add: with_data_def)

lemma handle_Rejected:
  assumes "cachedData c = None"
    and "fetchAndParseCSV (net w) parse (clock w) False = Rejected e"
  shows "\<exists>h. handle parse w rq c = Some h \<and> cache_after h = c"
proof (cases rq)
  case GetDates
  then show ?thesis
    using with_data_Rejected[OF assms] by (simp add: handle_def dates_handler_def)
next
  case (GetYieldCurve date)
  then show ?thesis
    using with_data_Rejected[OF assms]
    by (simp add: handle_def yield_curve_handler_def split: option.splits)
next
  case GetYieldCurves
  then show ?thesis
    using with_data_Rejected[OF assms] by (simp add: handle_def yield_curves_handler_def)
next
  case GetDebugCsv
  then show ?thesis by (simp add: handle_def debug_csv_handler_def)
qed

text \<open>
  Claim C3. When every month fails, every month contributes the empty row sequence and
  \<open>fetchAndParseCSV\<close> is rejected with the error \<open>Parsed CSVs are empty.\<close>; the
  scheduler's run then leaves the module variables as they were and logs the error, the
  startup block exits without serving, and a query handler that went through the lazy
  fetch leaves the module variables as they were.
\<close>

theorem all_months_fail:
  assumes "\<forall>ym \<in> set (getAllMonths (clock w)). month_fails (net w) parse ym"
  shows "(\<forall>ym \<in> set (getAllMonths (clock w)). month_fetch (net w) parse ym = Fulfilled [])
       \<and> fetchAndParseCSV (net w) parse (clock w) force = Rejected (Error ''Parsed CSVs are empty.'')
       \<and> scheduled_refresh parse w c = Some (c, RefreshError (Error ''Parsed CSVs are empty.''))
       \<and> bootstrap parse w = Some (Inl (Error ''Parsed CSVs are empty.''))
       \<and> (cachedData c = None \<longrightarrow> (\<forall>rq. \<exists>h. handle parse w rq c = Some h \<and> cache_after h = c))"
proof -
  have empty: "\<forall>ym \<in> set (getAllMonths (clock w)). month_fetch (net w) parse ym = Fulfilled []"
    using assms by (simp add: month_fetch_fails)
  have rej: "fetchAndParseCSV (net w) parse (clock w) f = Rejected (Error ''Parsed CSVs are empty.'')" for f
    using fetchAndParseCSV_settled[OF empty, of f] by simp
  have "scheduled_refresh parse w c = Some (c, RefreshError (Error ''Parsed CSVs are empty.''))"
    by (simp add: scheduled_refresh_def rej)
  moreover have "bootstrap parse w = Some (Inl (Error ''Parsed CSVs are empty.''))"
    by (simp add: bootstrap_def rej)
  moreover have "\<exists>h. handle parse w rq c = Some h \<and> cache_after h = c" if "cachedData c = None" for rq
    using that rej by (rule handle_Rejected)
  ultimately show ?thesis
    using empty rej by blast
qed

theorem all_months_fail_witness:
  "fetchAndParseCSV down_net toy_parse feb2025 True = Rejected (Error ''Parsed CSVs are empty.'')
   \<and> scheduled_refresh toy_parse \<lparr>clock = feb2025, net = down_net\<rparr> jan_cache
       = Some (jan_cache, RefreshError (Error ''Parsed CSVs are empty.''))
   \<and> bootstrap toy_parse \<lparr>clock = feb2025, net = down_net\<rparr> = Some (Inl (Error ''Parsed CSVs are empty.''))"
proof -
  have h: "\<forall>ym \<in> set (getAllMonths (clock \<lparr>clock = feb2025, net = down_net\<rparr>)).
      month_fails (net \<lparr>clock = feb2025, net = down_net\<rparr>) toy_parse ym"
    by (simp add: down_fails)
  show ?thesis
    using all_months_fail[OF h, of True jan_cache] by simp
qed

text \<open>
  Claim C8, as amended. No per-month fetch has a timeout: \<open>fetchAndParseCSV\<close> stays
  pending exactly when some month hangs, and so does the scheduler's run; a month's
  chain is pending exactly when that month hangs. A month that fails contributes the
  empty row sequence.
\<close>

theorem refresh_waits_for_every_month:
  "(fetchAndParseCSV fetch parse now force = Pending
      \<longleftrightarrow> (\<exists>ym \<in> set (getAllMonths now). month_hangs fetch ym))
   \<and> (scheduled_refresh parse w c = None
      \<longleftrightarrow> (\<exists>ym \<in> set (getAllMonths (clock w)). month_hangs (net w) ym))
   \<and> (month_fetch fetch parse ym = Pending \<longleftrightarrow> month_hangs fetch ym)
   \<and> (month_fails fetch parse ym \<longrightarrow> month_fetch fetch parse ym = Fulfilled [])"
proof -
  have "scheduled_refresh parse w c = None
      \<longleftrightarrow> fetchAndParseCSV (net w) parse (clock w) True = Pending"
    by (simp add: scheduled_refresh_def split: promise.splits)
  then show ?thesis
    by (simp add: fetchAndParseCSV_Pending_iff month_fetch_Pending_iff month_fetch_fails)
qed

theorem refresh_waits_for_every_month_witness:
  "month_fails down_net toy_parse ''202502''
   \<and> month_fetch down_net toy_parse ''202502'' = Fulfilled []
   \<and> month_hangs slow_net ''202502''
   \<and> fetchAndParseCSV slow_net toy_parse feb2025 True = Pending"
proof -
  have "\<exists>ym \<in> set (getAllMonths feb2025). month_hangs slow_net ym"
    by (simp add: getAllMonths_feb2025 slow_fetches)
  then show ?thesis
    using refresh_waits_for_every_month[where fetch = slow_net and parse = toy_parse
          and now = feb2025 and force = True]
      refresh_waits_for_every_month[where fetch = down_net and parse = toy_parse
          and ym = "''202502''"]
      down_fails[of "''202502''"] slow_fetches(3)
    by simp
qed

text \<open>
  Claim C8, as stated, fails: with January 2025 answered and February 2025 never
  answered, the chain of February is not fulfilled with the empty row sequence, and the
  refresh never settles.
\<close>

theorem slow_month_stalls_refresh:
  "month_fetch slow_net toy_parse ''202502'' \<noteq> Fulfilled []
   \<and> fetchAndParseCSV slow_net toy_parse feb2025 True = Pending
   \<and> scheduled_refresh toy_parse \<lparr>clock = feb2025, net = slow_net\<rparr> jan_cache = None"
  by code_simp

subsection \<open>The date index\<close>

lemma first_seen_snoc:
  "first_seen (xs @ [x]) = first_seen xs @ (if x \<in> set xs then [] else [x])"
proof -
  let ?P = "\<lambda>i. (xs @ [x]) ! i \<notin> set (take i (xs @ [x]))"
  let ?g = "\<lambda>i. (xs @ [x]) ! i"
  have f: "filter ?P [0..<length xs] = filter (\<lambda>i. xs ! i \<notin> set (take i xs)) [0..<length xs]"
    by (rule filter_cong) (simp_all add: nth_append)
  have m: "map ?g (filter (\<lambda>i. xs ! i \<notin> set (take i xs)) [0..<length xs])
         = map (\<lambda>i. xs ! i) (filter (\<lambda>i. xs ! i \<notin> set (take i xs)) [0..<length xs])"
    by (rule map_cong) (simp_all add: nth_append)
  have split: "[0..<length (xs @ [x])] = [0..<length xs] @ [length xs]"
    by simp
  have "first_seen (xs @ [x]) = map ?g (filter ?P [0..<length xs]) @ map ?g (filter ?P [length xs])"
    unfolding first_seen_def split by (simp only: filter_append map_append)
  also have "map ?g (filter ?P [0..<length xs]) = first_seen xs"
    unfolding first_seen_def by (simp only: f m)
  also have "map ?g (filter ?P [length xs]) = (if x \<in> set xs then [] else [x])"
    by simp
  finally show ?thesis .
qed

lemma new_Set_snoc: "new_Set (xs @ [x]) = Set_add (new_Set xs) x"
  by (simp add: new_Set_def)

lemma set_new_Set: "set (new_Set xs) = set xs"
proof (induction xs rule: rev_induct)
  case Nil
  show ?case by (simp add: new_Set_def)
next
  case (snoc x xs)
  then show ?case by (auto simp: new_Set_snoc Set_add_def)
qed

lemma distinct_new_Set: "distinct (new_Set xs)"
proof (induction xs rule: rev_induct)
  case Nil
  show ?case by (simp add: new_Set_def)
next
  case (snoc x xs)
  then show ?case by (simp add: new_Set_snoc Set_add_def)
qed

lemma new_Set_first_seen: "new_Set xs = first_seen xs"
proof (induction xs rule: rev_induct)
  case Nil
  show ?case by (simp add: new_Set_def first_seen_def)
next
  case (snoc x xs)
  have "x \<in> set (first_seen xs) \<longleftrightarrow> x \<in> set xs"
    using set_new_Set[of xs] snoc by simp
  then show ?case
    by (simp add: new_Set_snoc first_seen_snoc Set_add_def snoc)
qed

text \<open>
  \<open>extractDates\<close> on any dataset: the distinct values of the column \<open>Date\<close> by
  first occurrence.
\<close>

lemma extractDates_characterised:
  "extractDates records = first_seen (map (\<lambda>r. get_prop r ''Date'') records)
   \<and> distinct (extractDates records)
   \<and> set (extractDates records) = set (map (\<lambda>r. get_prop r ''Date'') records)"
  by (simp add: extractDates_def new_Set_first_seen[symmetric] distinct_new_Set set_new_Set)

subsection \<open>The cache, the handlers and the scheduler\<close>

lemma fetchAndParseCSV_Fulfilled_nonempty:
  "fetchAndParseCSV fetch parse now force = Fulfilled d \<Longrightarrow> d \<noteq> []"
  by (auto simp: fetchAndParseCSV_def then_p_def Let_def split: promise.splits if_splits)

lemma bootstrap_Inr:
  assumes "bootstrap parse w = Some (Inr c)"
  shows "\<exists>d. d \<noteq> [] \<and> c = \<lparr>cachedData = Some d, cachedDates = Some (extractDates d)\<rparr>"
  using assms fetchAndParseCSV_Fulfilled_nonempty[of "net w" parse "clock w" True]
  by (auto simp: bootstrap_def split: promise.splits)

lemma scheduled_refresh_same: "scheduled_refresh parse w c = Some (c', l) \<Longrightarrow> c' = c"
  by (auto simp: scheduled_refresh_def split: promise.splits)

lemma with_data_cached:
  "cachedData c = Some d \<Longrightarrow>
   with_data parse w c rest =
     Some (case rest c d of
             Inl (e, c') \<Rightarrow> \<lparr>reply = error_reply 500 (message e), cache_after = c', lazy_fetch = None\<rparr>
           | Inr (rp, c') \<Rightarrow> \<lparr>reply = rp, cache_after = c', lazy_fetch = None\<rparr>)"
  by (simp add: with_data_def)

lemma ensure_dates_cached: "cachedDates c = Some ds \<Longrightarrow> ensure_dates c d = c"
  by (simp add: ensure_dates_def)

lemma handle_cached:
  assumes "cachedData c = Some d" and "cachedDates c = Some ds"
  shows "\<exists>h. handle parse w rq c = Some h \<and> lazy_fetch h = None \<and> cache_after h = c"
proof (cases rq)
  case GetDates
  then show ?thesis
    using assms
    by (simp add: handle_def dates_handler_def with_data_cached ensure_dates_cached)
next
  case (GetYieldCurve date)
  then show ?thesis
    using assms
    by (auto simp: handle_def yield_curve_handler_def with_data_cached
        split: option.splits sum.splits)
next
  case GetYieldCurves
  then show ?thesis
    using assms
    by (simp add: handle_def yield_curves_handler_def with_data_cached ensure_dates_cached)
next
  case GetDebugCsv
  then show ?thesis by (simp add: handle_def debug_csv_handler_def)
qed

lemma reachable_snapshot:
  "reachable parse c \<Longrightarrow>
   \<exists>d. d \<noteq> [] \<and> c = \<lparr>cachedData = Some d, cachedDates = Some (extractDates d)\<rparr>"
proof (induction rule: reachable.induct)
  case (boot w c)
  then show ?case by (rule bootstrap_Inr)
next
  case (request c w rq h)
  then obtain d where d: "d \<noteq> []" "c = \<lparr>cachedData = Some d, cachedDates = Some (extractDates d)\<rparr>"
    by blast
  then have "cachedData c = Some d" "cachedDates c = Some (extractDates d)" by simp_all
  from handle_cached[OF this, of parse w rq] request(2) have "cache_after h = c" by simp
  with d show ?case by blast
next
  case (tick c w c' l)
  then show ?case using scheduled_refresh_same by blast
qed

lemma extractDates_nonempty: "records \<noteq> [] \<Longrightarrow> extractDates records \<noteq> []"
proof -
  assume "records \<noteq> []"
  moreover have "set (extractDates records) = set (map (\<lambda>r. get_prop r ''Date'') records)"
    by (simp add: extractDates_def set_new_Set)
  ultimately show ?thesis by auto
qed

lemma dates_handler_reachable:
  assumes "reachable parse c"
  shows "\<exists>d. cachedData c = Some d
          \<and> dates_handler parse w c
              = Some \<lparr>reply = \<lparr>status = 200, json = DatesBody (extractDates d)\<rparr>,
                      cache_after = c, lazy_fetch = None\<rparr>"
proof -
  from assms obtain d where d: "d \<noteq> []"
      "c = \<lparr>cachedData = Some d, cachedDates = Some (extractDates d)\<rparr>"
    using reachable_snapshot by blast
  then have "cachedData c = Some d" "cachedDates c = Some (extractDates d)" by simp_all
  then show ?thesis
    using extractDates_nonempty[OF d(1)]
    by (simp add: dates_handler_def with_data_cached ensure_dates_cached)
qed

text \<open>
  Claim C6. For every dataset, \<open>extractDates\<close> returns the distinct values of the
  column \<open>Date\<close> in the order of their first occurrences: the result has no
  duplicate, it has exactly the values that occur in the column, and it lists them by
  the position at which each occurs first. In every state reachable once the startup
  block has succeeded, the dates query replies 200 with that list for the cached
  dataset: the distinct values of its column \<open>Date\<close> in first-seen order, with no
  duplicate, also when rows of different months have the same date label.
\<close>

theorem dates_query_first_seen:
  "(extractDates records = first_seen (map (\<lambda>r. get_prop r ''Date'') records)
     \<and> distinct (extractDates records)
     \<and> set (extractDates records) = set (map (\<lambda>r. get_prop r ''Date'') records))
   \<and> (reachable parse c \<longrightarrow>
        (\<exists>d. cachedData c = Some d
           \<and> dates_handler parse w c
               = Some \<lparr>reply = \<lparr>status = 200,
                                json = DatesBody (first_seen (map (\<lambda>r. get_prop r ''Date'') d))\<rparr>,
                       cache_after = c, lazy_fetch = None\<rparr>
           \<and> handle parse w GetDates c = dates_handler parse w c
           \<and> distinct (first_seen (map (\<lambda>r. get_prop r ''Date'') d))
           \<and> set (first_seen (map (\<lambda>r. get_prop r ''Date'') d))
               = set (map (\<lambda>r. get_prop r ''Date'') d)))"
proof -
  have general: "extractDates rs = first_seen (map (\<lambda>r. get_prop r ''Date'') rs)
     \<and> distinct (extractDates rs)
     \<and> set (extractDates rs) = set (map (\<lambda>r. get_prop r ''Date'') rs)" for rs
    by (rule extractDates_characterised)
  have query: "\<exists>d. cachedData c = Some d
           \<and> dates_handler parse w c
               = Some \<lparr>reply = \<lparr>status = 200,
                                json = DatesBody (first_seen (map (\<lambda>r. get_prop r ''Date'') d))\<rparr>,
                       cache_after = c, lazy_fetch = None\<rparr>
           \<and> handle parse w GetDates c = dates_handler parse w c
           \<and> distinct (first_seen (map (\<lambda>r. get_prop r ''Date'') d))
           \<and> set (first_seen (map (\<lambda>r. get_prop r ''Date'') d))
               = set (map (\<lambda>r. get_prop r ''Date'') d)"
    if "reachable parse c"
  proof -
    from that obtain d where d: "cachedData c = Some d"
        "dates_handler parse w c
           = Some \<lparr>reply = \<lparr>status = 200, json = DatesBody (extractDates d)\<rparr>,
                   cache_after = c, lazy_fetch = None\<rparr>"
      using dates_handler_reachable by blast
    have h: "handle parse w GetDates c = dates_handler parse w c"
      by (simp add: handle_def)
    have e: "extractDates d = first_seen (map (\<lambda>r. get_prop r ''Date'') d)"
      and di: "distinct (extractDates d)"
      and se: "set (extractDates d) = set (map (\<lambda>r. get_prop r ''Date'') d)"
      using general[of d] by blast+
    note reply = d(2)[unfolded e] and di' = di[unfolded e] and se' = se[unfolded e]
    show ?thesis
      using d(1) reply h di' se' by (intro exI[of _ d]) (simp only: simp_thms)
  qed
  show ?thesis
    using general[of records] query by blast
qed

lemma bootstrap_repeat: "bootstrap toy_parse repeat_world = Some (Inr repeat_cache)"
  by code_simp

lemma first_seen_repeat:
  "first_seen (map (\<lambda>r. get_prop r ''Date'') [jan_row, jan_row]) = [Some ''01/02/2025'']"
  by code_simp

theorem dates_query_first_seen_witness:
  "cachedData repeat_cache = Some [jan_row, jan_row]
   \<and> dates_handler toy_parse jan_world repeat_cache
       = Some \<lparr>reply = \<lparr>status = 200, json = DatesBody [Some ''01/02/2025'']\<rparr>,
               cache_after = repeat_cache, lazy_fetch = None\<rparr>"
proof -
  have r: "reachable toy_parse repeat_cache"
    using bootstrap_repeat by (rule reachable.boot)
  have data: "cachedData repeat_cache = Some [jan_row, jan_row]"
    by (simp add: repeat_cache_def)
  from dates_query_first_seen[of _ toy_parse repeat_cache jan_world] r
  obtain d where d: "cachedData repeat_cache = Some d"
      "dates_handler toy_parse jan_world repeat_cache
         = Some \<lparr>reply = \<lparr>status = 200,
                          json = DatesBody (first_seen (map (\<lambda>r. get_prop r ''Date'') d))\<rparr>,
                 cache_after = repeat_cache, lazy_fetch = None\<rparr>"
    by blast
  from d(1) data have "d = [jan_row, jan_row]" by simp
  then have "first_seen (map (\<lambda>r. get_prop r ''Date'') d) = [Some ''01/02/2025'']"
    using first_seen_repeat by (simp only:)
  with d(2) data show ?thesis by (simp only: simp_thms)
qed

text \<open>
  Claim C5. In every state that is reachable once the startup block has succeeded,
  \<open>cachedData\<close> is not \<open>null\<close>, and every request, whatever the clock and the
  network, gets its reply without going through the lazy fetch and leaves the module
  variables as they are.
\<close>

theorem no_query_fetches:
  assumes "reachable parse c"
  shows "cachedData c \<noteq> None
       \<and> (\<forall>w rq. \<exists>h. handle parse w rq c = Some h \<and> lazy_fetch h = None \<and> cache_after h = c)"
proof -
  from assms obtain d where "c = \<lparr>cachedData = Some d, cachedDates = Some (extractDates d)\<rparr>"
    using reachable_snapshot by blast
  then have c: "cachedData c = Some d" "cachedDates c = Some (extractDates d)" by simp_all
  show ?thesis
    using c(1) handle_cached[OF c] by simp
qed

lemma bootstrap_jan: "bootstrap toy_parse jan_world = Some (Inr jan_cache)"
  by code_simp

theorem no_query_fetches_witness:
  "cachedData jan_cache \<noteq> None
   \<and> (\<forall>w rq. \<exists>h. handle toy_parse w rq jan_cache = Some h \<and> lazy_fetch h = None
          \<and> cache_after h = jan_cache)"
proof -
  have "reachable toy_parse jan_cache"
    using bootstrap_jan by (rule reachable.boot)
  then show ?thesis by (rule no_query_fetches)
qed

text \<open>
  Claim C1 fails on the code. The server starts with the record of 2 January; an hour
  later the source also has the record of 3 January, and the scheduler's run fetches and
  parses both and logs that the data was refreshed; the module variables still hold the
  record of 2 January alone, and a query for 3 January is answered 404.
\<close>

theorem scheduled_refresh_discards_result:
  "bootstrap toy_parse jan_world = Some (Inr jan_cache)
   \<and> fetchAndParseCSV (net later_world) toy_parse (clock later_world) True = Fulfilled [jan_row, jan_row2]
   \<and> scheduled_refresh toy_parse later_world jan_cache = Some (jan_cache, Refreshed)
   \<and> cachedData jan_cache = Some [jan_row]
   \<and> handle toy_parse later_world (GetYieldCurve (Some ''01/03/2025'')) jan_cache
       = Some \<lparr>reply = error_reply 404 ''Date not found'', cache_after = jan_cache, lazy_fetch = None\<rparr>"
  by code_simp

text \<open>
  Claim C7, as amended. With a cached dataset in which no row has the date \<open>d\<close>, a
  query for a date \<open>d\<close> that is not the empty string is answered 404 with
  \<open>Date not found\<close>, without a fetch, and the module variables stay as they are.
\<close>

theorem unknown_date_not_found:
  assumes "cachedData c = Some records"
    and "d \<noteq> ''''"
    and "\<forall>r \<in> set records. get_prop r ''Date'' \<noteq> Some d"
  shows "yield_curve_handler parse w (Some d) c
       = Some \<lparr>reply = \<lparr>status = 404, json = ErrorBody ''Date not found''\<rparr>,
               cache_after = c, lazy_fetch = None\<rparr>"
proof -
  from assms(3) have "find (\<lambda>r. get_prop r ''Date'' = Some d) records = None"
    by (simp add: find_None_iff)
  then show ?thesis
    using assms(1,2) by (simp add: yield_curve_handler_def with_data_cached error_reply_def)
qed

theorem unknown_date_not_found_witness:
  "yield_curve_handler toy_parse jan_world (Some ''01/03/2025'') jan_cache
     = Some \<lparr>reply = \<lparr>status = 404, json = ErrorBody ''Date not found''\<rparr>,
             cache_after = jan_cache, lazy_fetch = None\<rparr>"
proof -
  have h1: "cachedData jan_cache = Some [jan_row]" by (simp add: jan_cache_def)
  have h2: "''01/03/2025'' \<noteq> ''''" by simp
  have h3: "\<forall>r \<in> set [jan_row]. get_prop r ''Date'' \<noteq> Some ''01/03/2025''"
    by (simp add: jan_row_def get_prop_def)
  show ?thesis
    using h1 h2 h3 by (rule unknown_date_not_found)
qed

text \<open>
  Claim C7, as stated, fails for the empty string: no row of the cached dataset has the
  empty date, and the query is answered 400 as a missing parameter, not 404.
\<close>

theorem empty_date_is_missing_param:
  "cachedData jan_cache = Some [jan_row]
   \<and> get_prop jan_row ''Date'' \<noteq> Some ''''
   \<and> yield_curve_handler toy_parse jan_world (Some '''') jan_cache
       = Some \<lparr>reply = \<lparr>status = 400, json = ErrorBody ''Missing date param''\<rparr>,
               cache_after = jan_cache, lazy_fetch = None\<rparr>"
  by code_simp

lemma curve_of_distinct:
  assumes "distinct (map fst record)"
  shows "curve_of record (filter P (map fst record))
       = map (\<lambda>(k, cell). (k, cell_rate cell)) (filter (\<lambda>(k, cell). P k) record)"
proof -
  have keys: "filter P (map fst record) = map fst (filter (\<lambda>(k, cell). P k) record)"
    by (simp add: filter_map comp_def case_prod_unfold)
  have "map (\<lambda>maturity. (maturity,
             case get_prop record maturity of
               None \<Rightarrow> parseFloat ''undefined''
             | Some cell \<Rightarrow> if cell \<noteq> '''' then parseFloat cell else null))
          (map fst (filter (\<lambda>(k, cell). P k) record))
      = map (\<lambda>(k, cell). (k, cell_rate cell)) (filter (\<lambda>(k, cell). P k) record)"
    unfolding map_map
  proof (rule map_cong[OF refl])
    fix x assume "x \<in> set (filter (\<lambda>(k, cell). P k) record)"
    then have "x \<in> set record" by simp
    then have "map_of record (fst x) = Some (snd x)"
      using assms by (metis map_of_is_SomeI prod.collapse)
    then show "((\<lambda>maturity. (maturity,
             case get_prop record maturity of
               None \<Rightarrow> parseFloat ''undefined''
             | Some cell \<Rightarrow> if cell \<noteq> '''' then parseFloat cell else null)) \<circ> fst) x
        = (case x of (k, cell) \<Rightarrow> (k, cell_rate cell))"
      by (cases x) (simp add: get_prop_def cell_rate_def)
  qed
  then show ?thesis by (simp add: curve_of_def keys)
qed

text \<open>
  Claim C4, as amended. With a cached dataset, for a date \<open>d\<close> that is not the empty
  string, let \<open>record\<close> be the first row whose \<open>Date\<close> is \<open>d\<close> (a JavaScript
  object, so its keys are distinct), and let it have at least one column that matches
  the pattern. Then the query is answered 200 with one pair for each column of
  \<open>record\<close> that matches the pattern, in the order of the columns of \<open>record\<close>:
  the rate is \<open>null\<close> when the cell is the empty string and \<open>parseFloat\<close> of the
  cell otherwise. The columns are those of the matching row, not those of the first row
  of the dataset.
\<close>

theorem curve_of_first_matching_row:
  assumes "cachedData c = Some records"
    and "d \<noteq> ''''"
    and "find (\<lambda>r. get_prop r ''Date'' = Some d) records = Some record"
    and "distinct (map fst record)"
    and "\<exists>k \<in> set (map fst record). maturity_test k"
  shows "yield_curve_handler parse w (Some d) c
       = Some \<lparr>reply = \<lparr>status = 200,
                        json = CurveBody d (map (\<lambda>(k, cell). (k, cell_rate cell))
                                              (filter (\<lambda>(k, cell). maturity_test k) record))\<rparr>,
               cache_after = c, lazy_fetch = None\<rparr>"
proof -
  from assms(5) have "filter maturity_test (map fst record) \<noteq> []"
    by (simp add: filter_empty_conv)
  with assms(1,2,3) have "yield_curve_handler parse w (Some d) c
       = Some \<lparr>reply = \<lparr>status = 200,
                        json = CurveBody d (curve_of record (filter maturity_test (map fst record)))\<rparr>,
               cache_after = c, lazy_fetch = None\<rparr>"
    by (simp add: yield_curve_handler_def with_data_cached extractMaturities_def
        del: length_filter_map)
  then show ?thesis
    by (simp only: curve_of_distinct[OF assms(4)])
qed

lemma maturity_test_examples:
  "maturity_test ''1 Mo''" "maturity_test ''1.5 Month''" "maturity_test ''1 YR''"
  "maturity_test ''10 Yr''" "\<not> maturity_test ''Date''" "\<not> maturity_test ''Note''"
  by (simp_all add: is_digit_def is_space_def)

theorem curve_of_first_matching_row_witness:
  "yield_curve_handler toy_parse jan_world (Some ''02/18/2025'') mixed_cache
     = Some \<lparr>reply = \<lparr>status = 200,
                      json = CurveBody ''02/18/2025''
                        [(''1 Mo'', parseFloat ''4.30''), (''1.5 Month'', null), (''1 YR'', parseFloat ''4.25'')]\<rparr>,
             cache_after = mixed_cache, lazy_fetch = None\<rparr>"
proof -
  have h1: "cachedData mixed_cache = Some [jan_row, feb_row, bare_row, blank_row]"
    by (simp add: mixed_cache_def)
  have h2: "''02/18/2025'' \<noteq> ''''" by simp
  have h3: "find (\<lambda>r. get_prop r ''Date'' = Some ''02/18/2025'') [jan_row, feb_row, bare_row, blank_row]
      = Some feb_row"
    by (simp add: get_prop_def jan_row_def feb_row_def)
  have h4: "distinct (map fst feb_row)" by (simp add: feb_row_def)
  have h5: "\<exists>k \<in> set (map fst feb_row). maturity_test k"
    by (simp add: feb_row_def is_digit_def is_space_def)
  have "map (\<lambda>(k, cell). (k, cell_rate cell)) (filter (\<lambda>(k, cell). maturity_test k) feb_row)
      = [(''1 Mo'', parseFloat ''4.30''), (''1.5 Month'', null), (''1 YR'', parseFloat ''4.25'')]"
    by (simp add: feb_row_def is_digit_def is_space_def cell_rate_def)
  then show ?thesis
    using curve_of_first_matching_row[OF h1 h2 h3 h4 h5, of toy_parse jan_world] by simp
qed

text \<open>
  Claim C4, as stated, fails. In a dataset whose first row has the columns \<open>1 Mo\<close>
  and \<open>1 YR\<close>, the query for a later row with the further column \<open>1.5 Month\<close>
  returns three pairs, not those two; the query for a row with no column that matches
  the pattern is answered 500, with no curve; and the query for the empty string, the
  date of the last row, is answered 400.
\<close>

theorem curve_not_of_first_row:
  "cachedData mixed_cache = Some [jan_row, feb_row, bare_row, blank_row]
   \<and> extractMaturities [jan_row, feb_row, bare_row, blank_row] = Inr [''1 Mo'', ''1 YR'']
   \<and> get_prop feb_row ''Date'' = Some ''02/18/2025''
   \<and> yield_curve_handler toy_parse jan_world (Some ''02/18/2025'') mixed_cache
       = Some \<lparr>reply = \<lparr>status = 200,
                        json = CurveBody ''02/18/2025''
                          [(''1 Mo'', parseFloat ''4.30''), (''1.5 Month'', null), (''1 YR'', parseFloat ''4.25'')]\<rparr>,
               cache_after = mixed_cache, lazy_fetch = None\<rparr>
   \<and> get_prop bare_row ''Date'' = Some ''02/19/2025''
   \<and> yield_curve_handler toy_parse jan_world (Some ''02/19/2025'') mixed_cache
       = Some \<lparr>reply = \<lparr>status = 500, json = ErrorBody ''No maturity columns found for this date.''\<rparr>,
               cache_after = mixed_cache, lazy_fetch = None\<rparr>
   \<and> get_prop blank_row ''Date'' = Some ''''
   \<and> yield_curve_handler toy_parse jan_world (Some '''') mixed_cache
       = Some \<lparr>reply = \<lparr>status = 400, json = ErrorBody ''Missing date param''\<rparr>,
               cache_after = mixed_cache, lazy_fetch = None\<rparr>"
  by code_simp

end
